theory Spec2Isabelle
  imports Main
begin

section \<open>QCoro tasks: the data of \<open>src/qcoro/task.h\<close>\<close>

text \<open>
  A coroutine handle is the address of a coroutine frame; the null handle is \<open>None\<close>.
  \<open>std::variant<std::monostate, T, std::exception_ptr>\<close> is a datatype with one
  constructor for each alternative.
\<close>

type_synonym handle = nat

datatype ('a, 'e) variant = Monostate | Value 'a | ExceptionPtr 'e

text \<open>
  What a call can end with instead of a value: the stored exception rethrown by
  \<open>std::rethrow_exception\<close>, \<open>std::bad_variant_access\<close> thrown by \<open>std::get<T>\<close> on a
  variant holding another alternative, a failed \<open>Q_ASSERT\<close>, and the use of a handle
  that is null or refers to a destroyed frame.
\<close>

datatype 'e error = Rethrown 'e | BadVariantAccess | AssertionFailed | UndefinedBehaviour

text \<open>
  The observable operations, in the order in which they happen: a statement of user code
  run by the coroutine \<open>h\<close>, the write of \<open>mAwaitingCoroutine\<close>, the atomic exchange on
  \<open>mResumeAwaiter\<close> (with the value it observed), the resumption of a type-erased
  continuation handle, and the destruction of a frame.
\<close>

datatype event =
    Ran handle nat
  | StoreLink handle
  | Exchange bool
  | ResumeContinuation "handle option"
  | Destroyed handle

record TaskPromiseBase =
  mAwaitingCoroutine :: "handle option"
  mResumeAwaiter :: bool

record ('a, 'e) TaskPromise = TaskPromiseBase +
  mValue :: "('a, 'e) variant"

record 'e TaskPromiseVoid = TaskPromiseBase +
  mException :: "'e option"

record TaskFinalSuspend =
  fs_mAwaitingCoroutine :: "handle option"

text \<open>A promise as its constructor leaves it: null handle, flag false, empty result.\<close>

definition TaskPromise_init :: "('a, 'e) TaskPromise" where
  "TaskPromise_init = \<lparr>mAwaitingCoroutine = None, mResumeAwaiter = False, mValue = Monostate\<rparr>"


section \<open>The promise\<close>

subsection \<open>The rendezvous flag and the continuation link\<close>

text \<open>\<open>mResumeAwaiter.exchange(v, std::memory_order_acq_rel)\<close>: one atomic step.\<close>

definition exchange ::
  "bool \<Rightarrow> 'z TaskPromiseBase_scheme \<times> event list \<Rightarrow> bool \<times> 'z TaskPromiseBase_scheme \<times> event list"
where
  "exchange v s = (case s of (p, tr) \<Rightarrow>
     (mResumeAwaiter p, p\<lparr>mResumeAwaiter := v\<rparr>, tr @ [Exchange (mResumeAwaiter p)]))"

text \<open>\<open>mAwaitingCoroutine = awaitingCoroutine\<close>, line 185.\<close>

definition store_link ::
  "handle \<Rightarrow> 'z TaskPromiseBase_scheme \<times> event list \<Rightarrow> 'z TaskPromiseBase_scheme \<times> event list"
where
  "store_link c s = (case s of (p, tr) \<Rightarrow> (p\<lparr>mAwaitingCoroutine := Some c\<rparr>, tr @ [StoreLink c]))"

text \<open>\<open>promise.mAwaitingCoroutine.resume()\<close>, line 57: the continuation is opaque to the
  task, its resumption is recorded.\<close>

definition resume_link ::
  "'z TaskPromiseBase_scheme \<times> event list \<Rightarrow> 'z TaskPromiseBase_scheme \<times> event list"
where
  "resume_link s = (case s of (p, tr) \<Rightarrow> (p, tr @ [ResumeContinuation (mAwaitingCoroutine p)]))"

definition setAwaitingCoroutine ::
  "handle \<Rightarrow> 'z TaskPromiseBase_scheme \<times> event list \<Rightarrow> bool \<times> 'z TaskPromiseBase_scheme \<times> event list"
where
  "setAwaitingCoroutine awaitingCoroutine s =
     (let s1 = store_link awaitingCoroutine s;
          (prev, s2) = exchange True s1
      in (\<not> prev, s2))"

definition final_suspend :: "'z TaskPromiseBase_scheme \<Rightarrow> TaskFinalSuspend" where
  "final_suspend p = \<lparr>fs_mAwaitingCoroutine = mAwaitingCoroutine p\<rparr>"

definition TaskFinalSuspend_await_ready :: "TaskFinalSuspend \<Rightarrow> bool" where
  "TaskFinalSuspend_await_ready a = False"

definition TaskFinalSuspend_await_suspend ::
  "TaskFinalSuspend \<Rightarrow> 'z TaskPromiseBase_scheme \<times> event list \<Rightarrow> 'z TaskPromiseBase_scheme \<times> event list"
where
  "TaskFinalSuspend_await_suspend a s =
     (let (prev, s1) = exchange True s
      in if prev then resume_link s1 else s1)"

subsection \<open>The result cell\<close>

definition return_value :: "'a \<Rightarrow> ('a, 'e) TaskPromise \<Rightarrow> ('a, 'e) TaskPromise" where
  "return_value v p = p\<lparr>mValue := Value v\<rparr>"

text \<open>\<open>std::current_exception()\<close> inside the handler of the coroutine body is the
  exception \<open>e\<close> that escaped the body.\<close>

definition unhandled_exception :: "'e \<Rightarrow> ('a, 'e) TaskPromise \<Rightarrow> ('a, 'e) TaskPromise" where
  "unhandled_exception e p = p\<lparr>mValue := ExceptionPtr e\<rparr>"

fun std_get_T :: "('a, 'e) variant \<Rightarrow> 'e error + 'a" where
  "std_get_T (Value v) = Inr v"
| "std_get_T _ = Inl BadVariantAccess"

definition result :: "('a, 'e) TaskPromise \<Rightarrow> 'e error + 'a" where
  "result p = (case mValue p of
       ExceptionPtr e \<Rightarrow> Inl (Rethrown e)
     | other \<Rightarrow> std_get_T other)"

definition return_void :: "'e TaskPromiseVoid \<Rightarrow> 'e TaskPromiseVoid" where
  "return_void p = p"

definition unhandled_exception_void :: "'e \<Rightarrow> 'e TaskPromiseVoid \<Rightarrow> 'e TaskPromiseVoid" where
  "unhandled_exception_void e p = p\<lparr>mException := Some e\<rparr>"


subsection \<open>The end of a coroutine body\<close>

text \<open>
  The body of a coroutine ends in one of two ways: \<open>co_return v\<close>, for which the compiler
  calls \<open>return_value\<close> (\<open>return_void\<close> for \<open>Task<void>\<close>), or an exception leaving the
  body, for which it calls \<open>unhandled_exception\<close> in the handler around the body. Both
  continue with \<open>co_await promise.final_suspend()\<close>: \<open>await_ready\<close> of
  \<open>TaskFinalSuspend\<close> is asked and, being false, \<open>await_suspend\<close> runs with the coroutine
  suspended at its final suspend point.
\<close>

datatype ('a, 'e) outcome = Returned 'a | Threw 'e

definition co_await_final_suspend ::
  "'z TaskPromiseBase_scheme \<times> event list \<Rightarrow> 'z TaskPromiseBase_scheme \<times> event list"
where
  "co_await_final_suspend s =
     (let a = final_suspend (fst s)
      in if TaskFinalSuspend_await_ready a then s else TaskFinalSuspend_await_suspend a s)"

definition store_outcome :: "('a, 'e) outcome \<Rightarrow> ('a, 'e) TaskPromise \<Rightarrow> ('a, 'e) TaskPromise" where
  "store_outcome out p = (case out of Returned v \<Rightarrow> return_value v p | Threw e \<Rightarrow> unhandled_exception e p)"

definition store_outcome_void :: "(unit, 'e) outcome \<Rightarrow> 'e TaskPromiseVoid \<Rightarrow> 'e TaskPromiseVoid" where
  "store_outcome_void out p = (case out of Returned _ \<Rightarrow> return_void p | Threw e \<Rightarrow> unhandled_exception_void e p)"

definition coroutine_end ::
  "('a, 'e) outcome \<Rightarrow> ('a, 'e) TaskPromise \<times> event list \<Rightarrow> ('a, 'e) TaskPromise \<times> event list"
where
  "coroutine_end out s = (case s of (p, tr) \<Rightarrow> co_await_final_suspend (store_outcome out p, tr))"

definition coroutine_end_void ::
  "(unit, 'e) outcome \<Rightarrow> 'e TaskPromiseVoid \<times> event list \<Rightarrow> 'e TaskPromiseVoid \<times> event list"
where
  "coroutine_end_void out s = (case s of (p, tr) \<Rightarrow> co_await_final_suspend (store_outcome_void out p, tr))"

section \<open>Coroutine frames and their handles\<close>

text \<open>
  The user code of a coroutine, as far as the task sees it: a statement with a visible
  effect (\<open>Act\<close>), a \<open>co_await\<close> on something outside the task that is not ready, where
  the coroutine is suspended until its handle is resumed (\<open>Suspend\<close>), and the end of
  the body (\<open>Finish\<close>).
\<close>

datatype ('a, 'e) code =
    Act nat "('a, 'e) code"
  | Suspend "('a, 'e) code"
  | Finish "('a, 'e) outcome"

text \<open>A frame holds the promise and the point where the coroutine is suspended;
  \<open>at_final\<close> is what \<open>coroutine_handle::done()\<close> reads.\<close>

record ('a, 'e) frame =
  promise :: "('a, 'e) TaskPromise"
  code :: "('a, 'e) code"
  at_final :: bool

text \<open>
  The store: the live frames by address, the live \<open>Task\<close> objects by address with their
  field \<open>mCoroutine\<close>, and the events so far.
\<close>

type_synonym tid = nat

record ('a, 'e) world =
  frames :: "handle \<rightharpoonup> ('a, 'e) frame"
  tasks :: "tid \<rightharpoonup> handle option"
  trace :: "event list"

fun run ::
  "handle \<Rightarrow> ('a, 'e) code \<Rightarrow> ('a, 'e) TaskPromise \<times> event list \<Rightarrow> ('a, 'e) frame \<times> event list"
where
  "run h (Act n k) (p, tr) = run h k (p, tr @ [Ran h n])"
| "run h (Suspend k) (p, tr) = (\<lparr>promise = p, code = k, at_final = False\<rparr>, tr)"
| "run h (Finish out) (p, tr) =
     (case coroutine_end out (p, tr) of
        (p', tr') \<Rightarrow> (\<lparr>promise = p', code = Finish out, at_final = True\<rparr>, tr'))"

definition run_frame :: "handle \<Rightarrow> ('a, 'e) frame \<Rightarrow> ('a, 'e) world \<Rightarrow> ('a, 'e) world" where
  "run_frame h f w =
     (case run h (code f) (promise f, trace w) of
        (f', tr') \<Rightarrow> w\<lparr>frames := (frames w)(h \<mapsto> f'), trace := tr'\<rparr>)"

text \<open>\<open>coroutine_handle<Promise>\<close>: \<open>done()\<close>, \<open>resume()\<close> and \<open>destroy()\<close> need a live
  frame, and \<open>resume()\<close> a coroutine that is not at its final suspend point.\<close>

definition coroutine_done :: "('a, 'e) world \<Rightarrow> handle \<Rightarrow> 'e error + bool" where
  "coroutine_done w h =
     (case frames w h of None \<Rightarrow> Inl UndefinedBehaviour | Some f \<Rightarrow> Inr (at_final f))"

definition coroutine_resume :: "handle \<Rightarrow> ('a, 'e) world \<Rightarrow> 'e error + ('a, 'e) world" where
  "coroutine_resume h w =
     (case frames w h of
        None \<Rightarrow> Inl UndefinedBehaviour
      | Some f \<Rightarrow> if at_final f then Inl UndefinedBehaviour else Inr (run_frame h f w))"

definition coroutine_destroy :: "handle \<Rightarrow> ('a, 'e) world \<Rightarrow> 'e error + ('a, 'e) world" where
  "coroutine_destroy h w =
     (case frames w h of
        None \<Rightarrow> Inl UndefinedBehaviour
      | Some f \<Rightarrow> Inr (w\<lparr>frames := (frames w)(h := None), trace := trace w @ [Destroyed h]\<rparr>))"

section \<open>The class \<open>Task\<close>\<close>

text \<open>\<open>explicit Task() noexcept = default\<close> and \<open>explicit Task(coroutine_handle)\<close>,
  constructing the object at address \<open>t\<close>.\<close>

definition Task_default :: "tid \<Rightarrow> ('a, 'e) world \<Rightarrow> ('a, 'e) world" where
  "Task_default t w = w\<lparr>tasks := (tasks w)(t \<mapsto> None)\<rparr>"

definition Task_from_handle :: "tid \<Rightarrow> handle option \<Rightarrow> ('a, 'e) world \<Rightarrow> ('a, 'e) world" where
  "Task_from_handle t coroutine w = w\<lparr>tasks := (tasks w)(t \<mapsto> coroutine)\<rparr>"

text \<open>\<open>Task(Task &&other)\<close>: the new object is at \<open>t\<close>.\<close>

definition Task_move_ctor :: "tid \<Rightarrow> tid \<Rightarrow> ('a, 'e) world \<Rightarrow> 'e error + ('a, 'e) world" where
  "Task_move_ctor t other w =
     (case tasks w other of
        None \<Rightarrow> Inl UndefinedBehaviour
      | Some m \<Rightarrow>
          (let w1 = w\<lparr>tasks := (tasks w)(t \<mapsto> m)\<rparr>
           in Inr (w1\<lparr>tasks := (tasks w1)(other \<mapsto> None)\<rparr>)))"

text \<open>\<open>if (mCoroutine) mCoroutine.destroy()\<close>, as in the move assignment and the
  destructor.\<close>

definition destroy_if_bound :: "handle option \<Rightarrow> ('a, 'e) world \<Rightarrow> 'e error + ('a, 'e) world" where
  "destroy_if_bound m w = (case m of Some h \<Rightarrow> coroutine_destroy h w | None \<Rightarrow> Inr w)"

text \<open>\<open>Task &operator=(Task &&other)\<close> on the object \<open>this\<close>; \<open>other\<close> may be the same
  object.\<close>

definition Task_move_assign :: "tid \<Rightarrow> tid \<Rightarrow> ('a, 'e) world \<Rightarrow> 'e error + ('a, 'e) world" where
  "Task_move_assign this other w =
     (case tasks w this of
        None \<Rightarrow> Inl UndefinedBehaviour
      | Some m \<Rightarrow>
          (case destroy_if_bound m w of
             Inl err \<Rightarrow> Inl err
           | Inr w1 \<Rightarrow>
               (case tasks w1 other of
                  None \<Rightarrow> Inl UndefinedBehaviour
                | Some mo \<Rightarrow>
                    (let w2 = w1\<lparr>tasks := (tasks w1)(this \<mapsto> mo)\<rparr>
                     in Inr (w2\<lparr>tasks := (tasks w2)(other \<mapsto> None)\<rparr>)))))"

text \<open>\<open>~Task()\<close>; the object is gone afterwards.\<close>

definition Task_dtor :: "tid \<Rightarrow> ('a, 'e) world \<Rightarrow> 'e error + ('a, 'e) world" where
  "Task_dtor t w =
     (case tasks w t of
        None \<Rightarrow> Inl UndefinedBehaviour
      | Some m \<Rightarrow>
          (case destroy_if_bound m w of
             Inl err \<Rightarrow> Inl err
           | Inr w1 \<Rightarrow> Inr (w1\<lparr>tasks := (tasks w1)(t := None)\<rparr>)))"

definition isReady :: "('a, 'e) world \<Rightarrow> tid \<Rightarrow> 'e error + bool" where
  "isReady w t =
     (case tasks w t of
        None \<Rightarrow> Inl UndefinedBehaviour
      | Some None \<Rightarrow> Inr True
      | Some (Some h) \<Rightarrow> coroutine_done w h)"

section \<open>The awaiter\<close>

record TaskAwaiterBase =
  mAwaitedCoroutine :: "handle option"

text \<open>\<open>operator co_await\<close>, both overloads: \<open>TaskAwaiter{mCoroutine}\<close>.\<close>

definition operator_co_await :: "('a, 'e) world \<Rightarrow> tid \<Rightarrow> 'e error + TaskAwaiterBase" where
  "operator_co_await w t =
     (case tasks w t of
        None \<Rightarrow> Inl UndefinedBehaviour
      | Some m \<Rightarrow> Inr \<lparr>mAwaitedCoroutine = m\<rparr>)"

definition TaskAwaiterBase_await_ready :: "TaskAwaiterBase \<Rightarrow> ('a, 'e) world \<Rightarrow> 'e error + bool" where
  "TaskAwaiterBase_await_ready a w =
     (case mAwaitedCoroutine a of
        None \<Rightarrow> Inr True
      | Some h \<Rightarrow> coroutine_done w h)"

definition TaskAwaiterBase_await_suspend ::
  "TaskAwaiterBase \<Rightarrow> handle \<Rightarrow> ('a, 'e) world \<Rightarrow> 'e error + bool \<times> ('a, 'e) world"
where
  "TaskAwaiterBase_await_suspend a awaitingCoroutine w =
     (case mAwaitedCoroutine a of
        None \<Rightarrow> Inl UndefinedBehaviour
      | Some h \<Rightarrow>
          (case coroutine_resume h w of
             Inl err \<Rightarrow> Inl err
           | Inr w1 \<Rightarrow>
               (case frames w1 h of
                  None \<Rightarrow> Inl UndefinedBehaviour
                | Some f \<Rightarrow>
                    (case setAwaitingCoroutine awaitingCoroutine (promise f, trace w1) of
                       (r, p', tr') \<Rightarrow>
                         Inr (r, w1\<lparr>frames := (frames w1)(h \<mapsto> f\<lparr>promise := p'\<rparr>),
                                     trace := tr'\<rparr>)))))"

text \<open>
  \<open>Q_ASSERT(cond)\<close> is a macro of Qt, not of this repository: in a build with
  \<open>QT_NO_DEBUG\<close> it expands to nothing, otherwise it aborts when \<open>cond\<close> is false. The
  build is the parameter \<open>qt_debug\<close>.

  \<open>await_resume\<close> of both \<open>TaskAwaiter\<close> classes: the assertion, then the promise's
  \<open>result()\<close> (returned by value or moved from, the same value).
\<close>

definition Q_ASSERT :: "bool \<Rightarrow> bool \<Rightarrow> bool" where
  "Q_ASSERT qt_debug cond = (if qt_debug then cond else True)"

definition TaskAwaiter_await_resume ::
  "bool \<Rightarrow> TaskAwaiterBase \<Rightarrow> ('a, 'e) world \<Rightarrow> 'e error + 'a"
where
  "TaskAwaiter_await_resume qt_debug a w =
     (if \<not> Q_ASSERT qt_debug (mAwaitedCoroutine a \<noteq> None) then Inl AssertionFailed
      else
        (case mAwaitedCoroutine a of
           None \<Rightarrow> Inl UndefinedBehaviour
         | Some h \<Rightarrow>
             (case frames w h of
                None \<Rightarrow> Inl UndefinedBehaviour
              | Some f \<Rightarrow> result (promise f))))"

text \<open>
  The expression \<open>co_await task\<close> in a coroutine with handle \<open>c\<close>, as the language defines
  it: the awaiter is obtained, \<open>await_ready\<close> is asked; if it is true, \<open>await_resume\<close>
  gives the value of the expression at once; otherwise the coroutine \<open>c\<close> is suspended and
  \<open>await_suspend(c)\<close> is called, and \<open>c\<close> is resumed at once if that returns false.
\<close>

datatype ('a, 'e) await_status = Suspended | Completed "'e error + 'a"

definition resume_awaiting :: "handle \<Rightarrow> event list \<Rightarrow> event list" where
  "resume_awaiting c tr = tr @ [ResumeContinuation (Some c)]"

definition co_await_Task ::
  "bool \<Rightarrow> tid \<Rightarrow> handle \<Rightarrow> ('a, 'e) world
     \<Rightarrow> 'e error + ('a, 'e) await_status \<times> ('a, 'e) world"
where
  "co_await_Task qt_debug t c w =
     (case operator_co_await w t of
        Inl err \<Rightarrow> Inl err
      | Inr a \<Rightarrow>
          (case TaskAwaiterBase_await_ready a w of
             Inl err \<Rightarrow> Inl err
           | Inr True \<Rightarrow> Inr (Completed (TaskAwaiter_await_resume qt_debug a w), w)
           | Inr False \<Rightarrow>
               (case TaskAwaiterBase_await_suspend a c w of
                  Inl err \<Rightarrow> Inl err
                | Inr (True, w1) \<Rightarrow> Inr (Suspended, w1)
                | Inr (False, w1) \<Rightarrow>
                    (let w2 = w1\<lparr>trace := resume_awaiting c (trace w1)\<rparr>
                     in Inr (Completed (TaskAwaiter_await_resume qt_debug a w2), w2)))))"

section \<open>Calling a coroutine\<close>

text \<open>
  \<open>std::suspend_never\<close> and \<open>std::suspend_always\<close> with their \<open>await_ready\<close>.
  A call of a coroutine returning \<open>Task<T>\<close> allocates the frame (at \<open>h\<close>) with a fresh
  promise, obtains the return object (at \<open>t\<close>) from \<open>get_return_object\<close>, evaluates
  \<open>co_await promise.initial_suspend()\<close> and, unless that suspends, runs the body up to
  its first suspension; then the call returns the \<open>Task\<close> to its caller.
\<close>

datatype std_suspend = suspend_never | suspend_always

fun std_await_ready :: "std_suspend \<Rightarrow> bool" where
  "std_await_ready suspend_never = True"
| "std_await_ready suspend_always = False"

definition initial_suspend :: "'z TaskPromiseBase_scheme \<Rightarrow> std_suspend" where
  "initial_suspend p = suspend_never"

definition get_return_object :: "tid \<Rightarrow> handle \<Rightarrow> ('a, 'e) world \<Rightarrow> ('a, 'e) world" where
  "get_return_object t h w = Task_from_handle t (Some h) w"

definition call_coroutine ::
  "tid \<Rightarrow> handle \<Rightarrow> ('a, 'e) code \<Rightarrow> ('a, 'e) world \<Rightarrow> ('a, 'e) world"
where
  "call_coroutine t h body w =
     (let f = \<lparr>promise = TaskPromise_init, code = body, at_final = False\<rparr>;
          w1 = w\<lparr>frames := (frames w)(h \<mapsto> f)\<rparr>;
          w2 = get_return_object t h w1
      in if std_await_ready (initial_suspend (promise f)) then run_frame h f w2 else w2)"

section \<open>Worlds a program can reach\<close>

text \<open>
  The statements of user code that a coroutine body runs before its first suspension
  or its end, and what is left of the body there.
\<close>

fun first_acts :: "('a, 'e) code \<Rightarrow> nat list" where
  "first_acts (Act n k) = n # first_acts k"
| "first_acts (Suspend k) = []"
| "first_acts (Finish out) = []"

fun after_acts :: "('a, 'e) code \<Rightarrow> ('a, 'e) code" where
  "after_acts (Act n k) = after_acts k"
| "after_acts (Suspend k) = Suspend k"
| "after_acts (Finish out) = Finish out"

text \<open>
  Every bound \<open>Task\<close> refers to a live frame, and no two \<open>Task\<close> objects refer to the
  same frame.
\<close>

definition owners_live :: "('a, 'e) world \<Rightarrow> bool" where
  "owners_live w = (\<forall>t h. tasks w t = Some (Some h) \<longrightarrow> frames w h \<noteq> None)"

definition single_owner :: "('a, 'e) world \<Rightarrow> bool" where
  "single_owner w =
     (\<forall>t1 t2 h. tasks w t1 = Some (Some h) \<longrightarrow> tasks w t2 = Some (Some h) \<longrightarrow> t1 = t2)"

definition world_start :: "('a, 'e) world" where
  "world_start = \<lparr>frames = Map.empty, tasks = Map.empty, trace = []\<rparr>"

text \<open>
  What a program can do with tasks: construct one (at an address not in use), call a
  coroutine (whose frame is allocated at an address not in use, and whose \<open>Task\<close> comes
  from \<open>get_return_object\<close>), move-construct, move-assign, destroy, await a task, and
  have a suspended coroutine resumed from outside. There is no copy: the copy
  constructor and the copy assignment are deleted. Only calls free of undefined
  behaviour continue a program.
\<close>

inductive reachable :: "('a, 'e) world \<Rightarrow> bool" where
  r_start: "reachable world_start"
| r_default: "reachable w \<Longrightarrow> tasks w t = None \<Longrightarrow> reachable (Task_default t w)"
| r_call: "reachable w \<Longrightarrow> tasks w t = None \<Longrightarrow> frames w h = None
           \<Longrightarrow> reachable (call_coroutine t h body w)"
| r_move_ctor: "reachable w \<Longrightarrow> tasks w t = None \<Longrightarrow> Task_move_ctor t other w = Inr w'
           \<Longrightarrow> reachable w'"
| r_move_assign: "reachable w \<Longrightarrow> Task_move_assign this other w = Inr w' \<Longrightarrow> reachable w'"
| r_dtor: "reachable w \<Longrightarrow> Task_dtor t w = Inr w' \<Longrightarrow> reachable w'"
| r_resume: "reachable w \<Longrightarrow> coroutine_resume h w = Inr w' \<Longrightarrow> reachable w'"
| r_await: "reachable w \<Longrightarrow> co_await_Task qt_debug t c w = Inr (st, w') \<Longrightarrow> reachable w'"

text \<open>
  An example program: a coroutine called into the task at address 0 that runs a
  statement and returns 42 without suspending, and one called into the task at
  address 1 that suspends before it returns 5.
\<close>

definition two_tasks :: "(nat, nat) world" where
  "two_tasks =
     call_coroutine 1 8 (Suspend (Finish (Returned 5)))
       (call_coroutine 0 7 (Act 1 (Finish (Returned 42))) world_start)"

section \<open>What the promise's operations compute\<close>

lemma exchange_eq:
  "exchange v (p, tr) = (mResumeAwaiter p, p\<lparr>mResumeAwaiter := v\<rparr>, tr @ [Exchange (mResumeAwaiter p)])"
  by (simp add: exchange_def)

lemma store_link_eq:
  "store_link c (p, tr) = (p\<lparr>mAwaitingCoroutine := Some c\<rparr>, tr @ [StoreLink c])"
  by (simp add: store_link_def)

lemma resume_link_eq:
  "resume_link (p, tr) = (p, tr @ [ResumeContinuation (mAwaitingCoroutine p)])"
  by (simp add: resume_link_def)

lemma setAwaitingCoroutine_eq:
  "setAwaitingCoroutine c (p, tr) =
     (\<not> mResumeAwaiter p,
      p\<lparr>mAwaitingCoroutine := Some c, mResumeAwaiter := True\<rparr>,
      tr @ [StoreLink c, Exchange (mResumeAwaiter p)])"
  by (simp add: setAwaitingCoroutine_def store_link_eq exchange_eq)

lemma co_await_final_suspend_eq:
  "co_await_final_suspend (p, tr) =
     (p\<lparr>mResumeAwaiter := True\<rparr>,
      tr @ [Exchange (mResumeAwaiter p)] @
        (if mResumeAwaiter p then [ResumeContinuation (mAwaitingCoroutine p)] else []))"
  by (simp add: co_await_final_suspend_def TaskFinalSuspend_await_ready_def
      TaskFinalSuspend_await_suspend_def exchange_eq resume_link_eq)

lemma store_outcome_base [simp]:
  "mResumeAwaiter (store_outcome out p) = mResumeAwaiter p"
  "mAwaitingCoroutine (store_outcome out p) = mAwaitingCoroutine p"
  by (simp_all add: store_outcome_def return_value_def unhandled_exception_def split: outcome.splits)

lemma store_outcome_void_base [simp]:
  "mResumeAwaiter (store_outcome_void out p) = mResumeAwaiter p"
  "mAwaitingCoroutine (store_outcome_void out p) = mAwaitingCoroutine p"
  by (simp_all add: store_outcome_void_def return_void_def unhandled_exception_void_def
      split: outcome.splits)

lemma store_outcome_mValue:
  "mValue (store_outcome out p) = (case out of Returned v \<Rightarrow> Value v | Threw e \<Rightarrow> ExceptionPtr e)"
  by (simp add: store_outcome_def return_value_def unhandled_exception_def split: outcome.splits)

lemma coroutine_end_eq:
  "coroutine_end out (p, tr) =
     ((store_outcome out p)\<lparr>mResumeAwaiter := True\<rparr>,
      tr @ [Exchange (mResumeAwaiter p)] @
        (if mResumeAwaiter p then [ResumeContinuation (mAwaitingCoroutine p)] else []))"
  by (simp add: coroutine_end_def co_await_final_suspend_eq)

lemma coroutine_end_void_eq:
  "coroutine_end_void out (p, tr) =
     ((store_outcome_void out p)\<lparr>mResumeAwaiter := True\<rparr>,
      tr @ [Exchange (mResumeAwaiter p)] @
        (if mResumeAwaiter p then [ResumeContinuation (mAwaitingCoroutine p)] else []))"
  by (simp add: coroutine_end_void_def co_await_final_suspend_eq)

lemma result_cases:
  "result p = (case mValue p of
       Monostate \<Rightarrow> Inl BadVariantAccess | Value v \<Rightarrow> Inr v | ExceptionPtr e \<Rightarrow> Inl (Rethrown e))"
  by (simp add: result_def split: variant.splits)

section \<open>The completion path\<close>

text \<open>
  Claim C2. When the body of a coroutine has ended and its value or exception has been
  stored, the completion path makes exactly one atomic exchange, which sets the flag
  \<open>mResumeAwaiter\<close> to true, and it resumes the stored handle \<open>mAwaitingCoroutine\<close> if
  and only if the exchange observed true; having observed false it does nothing more.
  The same holds for \<open>Task<void>\<close>, and a coroutine that reaches its end is left at its
  final suspend point.
\<close>

theorem completion_path_exchanges_once:
  "coroutine_end out (p, tr) =
     ((store_outcome out p)\<lparr>mResumeAwaiter := True\<rparr>,
      tr @ Exchange (mResumeAwaiter p) #
        (if mResumeAwaiter p then [ResumeContinuation (mAwaitingCoroutine p)] else []))
   \<and> coroutine_end_void outv (q, tr) =
     ((store_outcome_void outv q)\<lparr>mResumeAwaiter := True\<rparr>,
      tr @ Exchange (mResumeAwaiter q) #
        (if mResumeAwaiter q then [ResumeContinuation (mAwaitingCoroutine q)] else []))
   \<and> run h (Finish out) (p, tr) =
     (\<lparr>promise = fst (coroutine_end out (p, tr)), code = Finish out, at_final = True\<rparr>,
      snd (coroutine_end out (p, tr)))"
  by (simp add: coroutine_end_eq coroutine_end_void_eq)

section \<open>The result cell\<close>

text \<open>
  Claim C4. A coroutine that ends with \<open>co_return v\<close> leaves a promise whose \<open>result()\<close>
  is \<open>v\<close>; one that ends with an exception \<open>e\<close> leaves a promise whose \<open>result()\<close> rethrows
  \<open>e\<close> and returns no value; and the cell holds the value exactly when the body returned
  and the exception exactly when it threw, never both.
\<close>

theorem result_round_trip:
  "result (return_value v p) = Inr v
   \<and> result (unhandled_exception e p) = Inl (Rethrown e)
   \<and> result (fst (coroutine_end (Returned v) (p, tr))) = Inr v
   \<and> result (fst (coroutine_end (Threw e) (p, tr))) = Inl (Rethrown e)
   \<and> mValue (fst (coroutine_end out (p, tr))) =
       (case out of Returned x \<Rightarrow> Value x | Threw x \<Rightarrow> ExceptionPtr x)
   \<and> ((\<exists>x. mValue (fst (coroutine_end out (p, tr))) = Value x)
        \<noteq> (\<exists>x. mValue (fst (coroutine_end out (p, tr))) = ExceptionPtr x))"
  by (cases out)
    (simp_all add: coroutine_end_eq store_outcome_mValue result_cases return_value_def
      unhandled_exception_def)


section \<open>Facts about frames, tasks and awaiting\<close>

lemma run_frame_tasks [simp]: "tasks (run_frame h f w) = tasks w"
  by (simp add: run_frame_def split: prod.splits)

lemma run_frame_frames: "frames (run_frame h f w) = (frames w)(h \<mapsto> fst (run h (code f) (promise f, trace w)))"
  by (simp add: run_frame_def split: prod.splits)

lemma run_frame_trace: "trace (run_frame h f w) = snd (run h (code f) (promise f, trace w))"
  by (simp add: run_frame_def split: prod.splits)

lemma run_acts:
  "run h body (p, tr) = run h (after_acts body) (p, tr @ map (Ran h) (first_acts body))"
  by (induction body arbitrary: tr) simp_all

lemma after_acts_cases:
  "(\<exists>k. after_acts body = Suspend k) \<or> (\<exists>out. after_acts body = Finish out)"
  by (induction body) simp_all

lemma run_trace_prefix: "\<exists>rest. snd (run h body (p, tr)) = tr @ rest"
proof (induction body arbitrary: tr)
  case (Act n k)
  from Act [of "tr @ [Ran h n]"] show ?case by auto
qed (auto simp: coroutine_end_eq)

lemma coroutine_resume_Inr:
  "coroutine_resume h w = Inr w' \<longleftrightarrow> (\<exists>f. frames w h = Some f \<and> \<not> at_final f \<and> w' = run_frame h f w)"
  by (auto simp: coroutine_resume_def split: option.splits)

lemma coroutine_destroy_Inr:
  "coroutine_destroy h w = Inr w' \<longleftrightarrow>
     (frames w h \<noteq> None \<and> w' = w\<lparr>frames := (frames w)(h := None), trace := trace w @ [Destroyed h]\<rparr>)"
  by (auto simp: coroutine_destroy_def split: option.splits)

lemma owners_live_run_frame: "owners_live w \<Longrightarrow> owners_live (run_frame h f w)"
  by (auto simp: owners_live_def run_frame_frames)

lemma single_owner_run_frame: "single_owner w \<Longrightarrow> single_owner (run_frame h f w)"
  by (auto simp: single_owner_def)

lemma inv_default: "owners_live w \<Longrightarrow> single_owner w \<Longrightarrow> owners_live (Task_default t w) \<and> single_owner (Task_default t w)"
  by (auto simp: owners_live_def single_owner_def Task_default_def split: if_splits)

lemma inv_call:
  "owners_live w \<Longrightarrow> single_owner w \<Longrightarrow> frames w h = None \<Longrightarrow>
   owners_live (call_coroutine t h body w) \<and> single_owner (call_coroutine t h body w)"
  by (auto simp: owners_live_def single_owner_def call_coroutine_def initial_suspend_def Let_def
        get_return_object_def Task_from_handle_def run_frame_frames split: if_splits)
     fastforce+

lemma inv_move_ctor:
  "owners_live w \<Longrightarrow> single_owner w \<Longrightarrow> tasks w t = None \<Longrightarrow> Task_move_ctor t other w = Inr w' \<Longrightarrow>
   owners_live w' \<and> single_owner w'"
  by (auto simp: owners_live_def single_owner_def Task_move_ctor_def Let_def split: option.splits if_splits)

lemma inv_move_assign:
  "owners_live w \<Longrightarrow> single_owner w \<Longrightarrow> Task_move_assign this other w = Inr w' \<Longrightarrow>
   owners_live w' \<and> single_owner w'"
  apply (auto simp: Task_move_assign_def destroy_if_bound_def coroutine_destroy_Inr Let_def split: option.splits sum.splits if_splits)
  apply (auto simp: owners_live_def single_owner_def split: if_splits)
  done

lemma inv_dtor:
  "owners_live w \<Longrightarrow> single_owner w \<Longrightarrow> Task_dtor t w = Inr w' \<Longrightarrow>
   owners_live w' \<and> single_owner w'"
  apply (auto simp: Task_dtor_def destroy_if_bound_def coroutine_destroy_Inr Let_def split: option.splits sum.splits if_splits)
  apply (auto simp: owners_live_def single_owner_def split: if_splits)
  done


lemma coroutine_resume_eq:
  "frames w h = Some f \<Longrightarrow> \<not> at_final f \<Longrightarrow> coroutine_resume h w = Inr (run_frame h f w)"
  by (simp add: coroutine_resume_def)

lemma await_suspend_eq:
  assumes "mAwaitedCoroutine a = Some h" "frames w h = Some f" "\<not> at_final f"
  shows "TaskAwaiterBase_await_suspend a c w =
     (let w1 = run_frame h f w; f1 = fst (run h (code f) (promise f, trace w))
      in Inr (\<not> mResumeAwaiter (promise f1),
           w1\<lparr>frames := (frames w1)(h \<mapsto>
               f1\<lparr>promise := (promise f1)\<lparr>mAwaitingCoroutine := Some c, mResumeAwaiter := True\<rparr>\<rparr>),
             trace := trace w1 @ [StoreLink c, Exchange (mResumeAwaiter (promise f1))]\<rparr>))"
  using assms
  by (simp add: TaskAwaiterBase_await_suspend_def coroutine_resume_eq setAwaitingCoroutine_eq
      run_frame_frames Let_def)

lemma await_suspend_InrD:
  "TaskAwaiterBase_await_suspend a c w = Inr rw \<Longrightarrow>
     \<exists>h f. mAwaitedCoroutine a = Some h \<and> frames w h = Some f \<and> \<not> at_final f"
  by (auto simp: TaskAwaiterBase_await_suspend_def coroutine_resume_Inr
      split: option.splits sum.splits)

lemma await_suspend_tasks: "TaskAwaiterBase_await_suspend a c w = Inr (r, w') \<Longrightarrow> tasks w' = tasks w"
  by (frule await_suspend_InrD) (auto simp: await_suspend_eq Let_def)

lemma await_suspend_live:
  "TaskAwaiterBase_await_suspend a c w = Inr (r, w') \<Longrightarrow> frames w h \<noteq> None \<Longrightarrow> frames w' h \<noteq> None"
  by (frule await_suspend_InrD) (auto simp: await_suspend_eq Let_def run_frame_frames split: if_splits)

lemma co_await_Task_tasks: "co_await_Task qt_debug t c w = Inr (st, w') \<Longrightarrow> tasks w' = tasks w"
  by (auto simp: co_await_Task_def resume_awaiting_def Let_def dest: await_suspend_tasks
      split: sum.splits bool.splits prod.splits)

lemma co_await_Task_live:
  "co_await_Task qt_debug t c w = Inr (st, w') \<Longrightarrow> frames w h \<noteq> None \<Longrightarrow> frames w' h \<noteq> None"
  by (auto simp: co_await_Task_def resume_awaiting_def Let_def dest: await_suspend_live
      split: sum.splits bool.splits prod.splits)

lemma inv_await:
  assumes "owners_live w" "single_owner w" "co_await_Task qt_debug t c w = Inr (st, w')"
  shows "owners_live w' \<and> single_owner w'"
  using assms co_await_Task_tasks [OF assms(3)] co_await_Task_live [OF assms(3)]
  unfolding owners_live_def single_owner_def by metis

lemma inv_resume:
  "owners_live w \<Longrightarrow> single_owner w \<Longrightarrow> coroutine_resume h w = Inr w' \<Longrightarrow>
   owners_live w' \<and> single_owner w'"
  by (auto simp: coroutine_resume_Inr owners_live_run_frame single_owner_run_frame)

lemma inv_start: "owners_live world_start \<and> single_owner world_start"
  by (simp add: owners_live_def single_owner_def world_start_def)

lemma reachable_inv: "reachable w \<Longrightarrow> owners_live w \<and> single_owner w"
proof (induction rule: reachable.induct)
  case r_start
  show ?case by (rule inv_start)
next
  case (r_default w t)
  then show ?case using inv_default by blast
next
  case (r_call w t h body)
  then show ?case using inv_call by blast
next
  case (r_move_ctor w t other w')
  then show ?case using inv_move_ctor by blast
next
  case (r_move_assign w this other w')
  then show ?case using inv_move_assign by blast
next
  case (r_dtor w t w')
  then show ?case using inv_dtor by blast
next
  case (r_resume w h w')
  then show ?case using inv_resume by blast
next
  case (r_await w t c st w')
  then show ?case using inv_await by blast
qed

section \<open>Attaching, readiness, unbound tasks, eager start\<close>



lemma await_ready_eq:
  assumes "\<forall>h. m = Some h \<longrightarrow> frames w h \<noteq> None"
  shows "TaskAwaiterBase_await_ready \<lparr>mAwaitedCoroutine = m\<rparr> w =
           Inr (m = None \<or> (\<exists>h f. m = Some h \<and> frames w h = Some f \<and> at_final f))"
  using assms
  by (auto simp: TaskAwaiterBase_await_ready_def coroutine_done_def split: option.splits)

lemma isReady_eq:
  assumes "tasks w t = Some m" "\<forall>h. m = Some h \<longrightarrow> frames w h \<noteq> None"
  shows "isReady w t = Inr (m = None \<or> (\<exists>h f. m = Some h \<and> frames w h = Some f \<and> at_final f))"
  using assms
  by (auto simp: isReady_def coroutine_done_def split: option.splits)

lemma co_await_ready:
  assumes "tasks w t = Some m" "TaskAwaiterBase_await_ready \<lparr>mAwaitedCoroutine = m\<rparr> w = Inr True"
  shows "co_await_Task qt_debug t c w = Inr (Completed (TaskAwaiter_await_resume qt_debug \<lparr>mAwaitedCoroutine = m\<rparr> w), w)"
  using assms by (simp add: co_await_Task_def operator_co_await_def)

text \<open>
  Claim C6. For a task whose handle is null or refers to a live frame, \<open>isReady()\<close> and
  the awaiter's \<open>await_ready()\<close> return true exactly when the handle is null or the
  coroutine is at its final suspend point; and when \<open>await_ready()\<close> returns true,
  \<open>co_await\<close> completes at once, without suspending the awaiting coroutine and
  leaving promise and trace as they were: no link is stored, no flag exchanged.
\<close>

theorem ready_skips_rendezvous:
  assumes "tasks w t = Some m" and "\<forall>h. m = Some h \<longrightarrow> frames w h \<noteq> None"
  shows "isReady w t = Inr (m = None \<or> (\<exists>h f. m = Some h \<and> frames w h = Some f \<and> at_final f))
    \<and> operator_co_await w t = Inr \<lparr>mAwaitedCoroutine = m\<rparr>
    \<and> TaskAwaiterBase_await_ready \<lparr>mAwaitedCoroutine = m\<rparr> w =
        Inr (m = None \<or> (\<exists>h f. m = Some h \<and> frames w h = Some f \<and> at_final f))
    \<and> (TaskAwaiterBase_await_ready \<lparr>mAwaitedCoroutine = m\<rparr> w = Inr True \<longrightarrow>
        co_await_Task qt_debug t c w =
          Inr (Completed (TaskAwaiter_await_resume qt_debug \<lparr>mAwaitedCoroutine = m\<rparr> w), w))"
  using assms isReady_eq [OF assms] await_ready_eq [OF assms(2)]
    co_await_ready [OF assms(1), of qt_debug c]
  by (simp add: operator_co_await_def)

text \<open>
  Claim C9. For a task whose handle is null (default-constructed or moved-from), the
  awaiter from \<open>operator co_await\<close> has a null handle, its \<open>await_ready()\<close> returns
  true, and its \<open>await_resume()\<close> fails the assertion that the handle is not null: the
  awaiting coroutine does not suspend and obtains no result. (In a build where
  \<open>Q_ASSERT\<close> expands to nothing, \<open>await_resume()\<close> goes on to use the null handle;
  it returns a result in neither build.)
\<close>

theorem unbound_task_ready_without_result:
  assumes "tasks w t = Some None"
  shows "operator_co_await w t = Inr \<lparr>mAwaitedCoroutine = None\<rparr>
    \<and> TaskAwaiterBase_await_ready \<lparr>mAwaitedCoroutine = None\<rparr> w = Inr True
    \<and> TaskAwaiter_await_resume True \<lparr>mAwaitedCoroutine = None\<rparr> w = Inl AssertionFailed
    \<and> co_await_Task True t c w = Inr (Completed (Inl AssertionFailed), w)
    \<and> TaskAwaiter_await_resume False \<lparr>mAwaitedCoroutine = None\<rparr> w = Inl UndefinedBehaviour
    \<and> co_await_Task False t c w = Inr (Completed (Inl UndefinedBehaviour), w)
    \<and> (\<forall>x. TaskAwaiter_await_resume qt_debug \<lparr>mAwaitedCoroutine = None\<rparr> w \<noteq> Inr x)"
  using assms
  by (simp add: operator_co_await_def TaskAwaiterBase_await_ready_def TaskAwaiter_await_resume_def
      co_await_Task_def Q_ASSERT_def)

text \<open>
  Claim C10. Move-assigning a bound task to itself destroys the frame of its coroutine
  and then leaves the task unbound: the frame and the result in its promise are gone,
  and the world is not the one before the assignment.
\<close>

theorem self_move_assign_destroys:
  assumes "tasks w t = Some (Some h)" and "frames w h = Some f"
  shows "\<exists>w'. Task_move_assign t t w = Inr w'
    \<and> frames w' = (frames w)(h := None)
    \<and> trace w' = trace w @ [Destroyed h]
    \<and> tasks w' = (tasks w)(t \<mapsto> None)
    \<and> w' \<noteq> w
    \<and> isReady w' t = Inr True"
proof -
  let ?w' = "w\<lparr>frames := (frames w)(h := None), trace := trace w @ [Destroyed h],
    tasks := (tasks w)(t \<mapsto> None)\<rparr>"
  have "Task_move_assign t t w = Inr ?w'"
    using assms
    by (simp add: Task_move_assign_def destroy_if_bound_def coroutine_destroy_def Let_def)
  moreover have "frames ?w' h \<noteq> frames w h" using assms by simp
  then have "?w' \<noteq> w" by metis
  moreover have "isReady ?w' t = Inr True" by (simp add: isReady_def)
  ultimately show ?thesis by simp
qed

lemma call_coroutine_eq:
  "call_coroutine t h body w =
     run_frame h \<lparr>promise = TaskPromise_init, code = body, at_final = False\<rparr>
       (w\<lparr>frames := (frames w)(h \<mapsto> \<lparr>promise = TaskPromise_init, code = body, at_final = False\<rparr>),
          tasks := (tasks w)(t \<mapsto> Some h)\<rparr>)"
  by (simp add: call_coroutine_def Let_def initial_suspend_def get_return_object_def
      Task_from_handle_def)

lemma TaskPromise_init_base:
  "mResumeAwaiter TaskPromise_init = False" "mAwaitingCoroutine TaskPromise_init = None"
  by (simp_all add: TaskPromise_init_def)

text \<open>
  Claim C7. \<open>initial_suspend()\<close> is \<open>std::suspend_never\<close>, whose \<open>await_ready()\<close> is
  true, so a call of a coroutine never suspends at the initial suspend point: when the
  call returns the task (bound to the new frame) to its caller, the statements of the
  body up to its first suspension or its end have run, and a body that does not suspend
  has stored its result and passed its final suspend.
\<close>

theorem eager_start:
  "initial_suspend p = suspend_never
   \<and> std_await_ready (initial_suspend p)
   \<and> tasks (call_coroutine t h body w) t = Some (Some h)
   \<and> (case after_acts body of
        Act n k \<Rightarrow> False
      | Suspend k \<Rightarrow>
          frames (call_coroutine t h body w) h
            = Some \<lparr>promise = TaskPromise_init, code = k, at_final = False\<rparr>
          \<and> trace (call_coroutine t h body w) = trace w @ map (Ran h) (first_acts body)
      | Finish out \<Rightarrow>
          frames (call_coroutine t h body w) h
            = Some \<lparr>promise = (store_outcome out TaskPromise_init)\<lparr>mResumeAwaiter := True\<rparr>,
                    code = Finish out, at_final = True\<rparr>
          \<and> trace (call_coroutine t h body w)
            = trace w @ map (Ran h) (first_acts body) @ [Exchange False])"
proof -
  have r: "run h body (TaskPromise_init, trace w)
      = run h (after_acts body) (TaskPromise_init, trace w @ map (Ran h) (first_acts body))"
    by (rule run_acts)
  have "case after_acts body of
        Act n k \<Rightarrow> False
      | Suspend k \<Rightarrow>
          frames (call_coroutine t h body w) h
            = Some \<lparr>promise = TaskPromise_init, code = k, at_final = False\<rparr>
          \<and> trace (call_coroutine t h body w) = trace w @ map (Ran h) (first_acts body)
      | Finish out \<Rightarrow>
          frames (call_coroutine t h body w) h
            = Some \<lparr>promise = (store_outcome out TaskPromise_init)\<lparr>mResumeAwaiter := True\<rparr>,
                    code = Finish out, at_final = True\<rparr>
          \<and> trace (call_coroutine t h body w)
            = trace w @ map (Ran h) (first_acts body) @ [Exchange False]"
    using after_acts_cases [of body]
    by (auto simp: call_coroutine_eq run_frame_frames run_frame_trace r coroutine_end_eq
        TaskPromise_init_base)
  then show ?thesis
    by (simp add: initial_suspend_def call_coroutine_eq)
qed

section \<open>Ownership\<close>

lemma move_ctor_transfers:
  assumes "tasks w other = Some m" "tasks w t = None"
  shows "\<exists>w1 w2. Task_move_ctor t other w = Inr w1
      \<and> tasks w1 = (tasks w)(t \<mapsto> m, other \<mapsto> None) \<and> frames w1 = frames w \<and> trace w1 = trace w
      \<and> Task_dtor other w1 = Inr w2 \<and> frames w2 = frames w \<and> trace w2 = trace w
      \<and> tasks w2 = (tasks w)(t \<mapsto> m, other := None)"
  using assms
  by (auto simp: Task_move_ctor_def Task_dtor_def destroy_if_bound_def Let_def)

lemma move_assign_transfers:
  assumes "tasks w this = Some m0" "tasks w other = Some m"
    and "\<forall>h. m0 = Some h \<longrightarrow> frames w h \<noteq> None"
  shows "\<exists>w1 w2. Task_move_assign this other w = Inr w1
      \<and> tasks w1 = (tasks w)(this \<mapsto> m, other \<mapsto> None)
      \<and> frames w1 = (case m0 of Some h0 \<Rightarrow> (frames w)(h0 := None) | None \<Rightarrow> frames w)
      \<and> trace w1 = trace w @ (case m0 of Some h0 \<Rightarrow> [Destroyed h0] | None \<Rightarrow> [])
      \<and> Task_dtor other w1 = Inr w2 \<and> frames w2 = frames w1 \<and> trace w2 = trace w1"
  using assms
  by (cases m0)
    (auto simp: Task_move_assign_def Task_dtor_def destroy_if_bound_def coroutine_destroy_def Let_def)

lemma dtor_destroys_once:
  assumes "tasks w t = Some (Some h)" "frames w h \<noteq> None"
  shows "\<exists>w1. Task_dtor t w = Inr w1
      \<and> frames w1 = (frames w)(h := None)
      \<and> trace w1 = trace w @ [Destroyed h]
      \<and> tasks w1 = (tasks w)(t := None)"
  using assms
  by (auto simp: Task_dtor_def destroy_if_bound_def coroutine_destroy_def)

text \<open>
  Claim C5. In every world a program can reach, no two \<open>Task\<close> objects hold the same
  handle and every bound \<open>Task\<close> refers to a live frame (there is no copy operation to
  duplicate a handle). Move construction and move assignment (also of a task to
  itself) leave the source with a null handle, so that destroying the source afterwards
  destroys no frame and records nothing; move assignment destroys the frame the target
  held before it takes the source's handle; and the destructor of a bound task destroys
  its frame, once.
\<close>

theorem task_ownership:
  assumes "reachable w"
  shows "single_owner w \<and> owners_live w
    \<and> (tasks w src = Some m \<and> tasks w new = None \<longrightarrow>
        (\<exists>w1 w2. Task_move_ctor new src w = Inr w1
          \<and> tasks w1 = (tasks w)(new \<mapsto> m, src \<mapsto> None) \<and> frames w1 = frames w \<and> trace w1 = trace w
          \<and> Task_dtor src w1 = Inr w2 \<and> frames w2 = frames w \<and> trace w2 = trace w
          \<and> tasks w2 = (tasks w)(new \<mapsto> m, src := None)))
    \<and> (tasks w this = Some m0 \<and> tasks w other = Some mo \<longrightarrow>
        (\<exists>w1 w2. Task_move_assign this other w = Inr w1
          \<and> tasks w1 = (tasks w)(this \<mapsto> mo, other \<mapsto> None)
          \<and> frames w1 = (case m0 of Some h0 \<Rightarrow> (frames w)(h0 := None) | None \<Rightarrow> frames w)
          \<and> trace w1 = trace w @ (case m0 of Some h0 \<Rightarrow> [Destroyed h0] | None \<Rightarrow> [])
          \<and> Task_dtor other w1 = Inr w2 \<and> frames w2 = frames w1 \<and> trace w2 = trace w1))
    \<and> (tasks w t = Some (Some h) \<longrightarrow>
        (\<exists>w1. Task_dtor t w = Inr w1
          \<and> frames w1 = (frames w)(h := None)
          \<and> trace w1 = trace w @ [Destroyed h]
          \<and> count_list (trace w1) (Destroyed h) = Suc (count_list (trace w) (Destroyed h))
          \<and> tasks w1 = (tasks w)(t := None)))"
proof -
  from assms have inv: "owners_live w" "single_owner w"
    using reachable_inv by blast+
  have live: "tasks w x = Some (Some y) \<Longrightarrow> frames w y \<noteq> None" for x y
    using inv(1) unfolding owners_live_def by blast
  have a: "tasks w src = Some m \<and> tasks w new = None \<longrightarrow>
        (\<exists>w1 w2. Task_move_ctor new src w = Inr w1
          \<and> tasks w1 = (tasks w)(new \<mapsto> m, src \<mapsto> None) \<and> frames w1 = frames w \<and> trace w1 = trace w
          \<and> Task_dtor src w1 = Inr w2 \<and> frames w2 = frames w \<and> trace w2 = trace w
          \<and> tasks w2 = (tasks w)(new \<mapsto> m, src := None))"
    using move_ctor_transfers by blast
  have b: "tasks w this = Some m0 \<and> tasks w other = Some mo \<longrightarrow>
        (\<exists>w1 w2. Task_move_assign this other w = Inr w1
          \<and> tasks w1 = (tasks w)(this \<mapsto> mo, other \<mapsto> None)
          \<and> frames w1 = (case m0 of Some h0 \<Rightarrow> (frames w)(h0 := None) | None \<Rightarrow> frames w)
          \<and> trace w1 = trace w @ (case m0 of Some h0 \<Rightarrow> [Destroyed h0] | None \<Rightarrow> [])
          \<and> Task_dtor other w1 = Inr w2 \<and> frames w2 = frames w1 \<and> trace w2 = trace w1)"
  proof (intro impI, elim conjE)
    assume t: "tasks w this = Some m0" and o: "tasks w other = Some mo"
    have "\<forall>h. m0 = Some h \<longrightarrow> frames w h \<noteq> None" using t live by blast
    from move_assign_transfers [OF t o this] show "\<exists>w1 w2. Task_move_assign this other w = Inr w1
          \<and> tasks w1 = (tasks w)(this \<mapsto> mo, other \<mapsto> None)
          \<and> frames w1 = (case m0 of Some h0 \<Rightarrow> (frames w)(h0 := None) | None \<Rightarrow> frames w)
          \<and> trace w1 = trace w @ (case m0 of Some h0 \<Rightarrow> [Destroyed h0] | None \<Rightarrow> [])
          \<and> Task_dtor other w1 = Inr w2 \<and> frames w2 = frames w1 \<and> trace w2 = trace w1" .
  qed
  have c: "tasks w t = Some (Some h) \<longrightarrow>
        (\<exists>w1. Task_dtor t w = Inr w1
          \<and> frames w1 = (frames w)(h := None)
          \<and> trace w1 = trace w @ [Destroyed h]
          \<and> count_list (trace w1) (Destroyed h) = Suc (count_list (trace w) (Destroyed h))
          \<and> tasks w1 = (tasks w)(t := None))"
  proof
    assume t: "tasks w t = Some (Some h)"
    from dtor_destroys_once [OF t live [OF t]] obtain w1 where
      "Task_dtor t w = Inr w1" "frames w1 = (frames w)(h := None)"
      "trace w1 = trace w @ [Destroyed h]" "tasks w1 = (tasks w)(t := None)" by blast
    then show "\<exists>w1. Task_dtor t w = Inr w1
          \<and> frames w1 = (frames w)(h := None)
          \<and> trace w1 = trace w @ [Destroyed h]
          \<and> count_list (trace w1) (Destroyed h) = Suc (count_list (trace w) (Destroyed h))
          \<and> tasks w1 = (tasks w)(t := None)" by simp
  qed
  from inv a b c show ?thesis by blast
qed

section \<open>The example program\<close>

lemma two_tasks_eq:
  "two_tasks =
     \<lparr>frames = [7 \<mapsto> \<lparr>promise = \<lparr>mAwaitingCoroutine = None, mResumeAwaiter = True, mValue = Value 42\<rparr>,
                        code = Finish (Returned 42), at_final = True\<rparr>,
                 8 \<mapsto> \<lparr>promise = TaskPromise_init, code = Finish (Returned 5), at_final = False\<rparr>],
      tasks = [0 \<mapsto> Some 7, 1 \<mapsto> Some 8],
      trace = [Ran 7 1, Exchange False]\<rparr>"
  by (simp add: two_tasks_def call_coroutine_eq run_frame_def world_start_def coroutine_end_eq
      store_outcome_def return_value_def TaskPromise_init_def)

lemma two_tasks_reachable: "reachable two_tasks"
  unfolding two_tasks_def
  by (intro reachable.r_call reachable.r_start)
    (simp_all add: world_start_def call_coroutine_eq run_frame_frames)



theorem ready_skips_rendezvous_witness:
  "tasks two_tasks 0 = Some (Some 7)
   \<and> isReady two_tasks 0 = Inr True
   \<and> TaskAwaiterBase_await_ready \<lparr>mAwaitedCoroutine = Some 7\<rparr> two_tasks = Inr True
   \<and> co_await_Task True 0 9 two_tasks = Inr (Completed (Inr 42), two_tasks)"
proof -
  have t: "tasks two_tasks 0 = Some (Some 7)" by (simp add: two_tasks_eq)
  have l: "\<forall>h. Some 7 = Some h \<longrightarrow> frames two_tasks h \<noteq> None" by (simp add: two_tasks_eq)
  have f: "frames two_tasks 7 = Some \<lparr>promise = \<lparr>mAwaitingCoroutine = None, mResumeAwaiter = True, mValue = Value 42\<rparr>,
                        code = Finish (Returned 42), at_final = True\<rparr>"
    by (simp add: two_tasks_eq)
  have r: "TaskAwaiter_await_resume True \<lparr>mAwaitedCoroutine = Some 7\<rparr> two_tasks
      = (Inr 42 :: nat error + nat)"
    by (simp add: TaskAwaiter_await_resume_def Q_ASSERT_def f result_cases)
  from ready_skips_rendezvous [OF t l, of True 9] t f r show ?thesis
    by simp
qed

theorem unbound_task_ready_without_result_witness:
  "tasks (Task_default 2 two_tasks) 2 = Some None
   \<and> co_await_Task True 2 9 (Task_default 2 two_tasks)
       = Inr (Completed (Inl AssertionFailed), Task_default 2 two_tasks)
   \<and> (\<exists>w'. Task_move_ctor 2 1 two_tasks = Inr w' \<and> tasks w' 1 = Some None
         \<and> co_await_Task True 1 9 w' = Inr (Completed (Inl AssertionFailed), w'))"
proof -
  have d: "tasks (Task_default 2 two_tasks) 2 = Some None" by (simp add: Task_default_def)
  let ?w = "two_tasks\<lparr>tasks := [0 \<mapsto> Some 7, 1 \<mapsto> None, 2 \<mapsto> Some 8]\<rparr>"
  have m: "Task_move_ctor 2 1 two_tasks = Inr ?w"
    by (simp add: Task_move_ctor_def two_tasks_eq Let_def fun_upd_twist)
  have u: "tasks ?w 1 = Some None" by simp
  from unbound_task_ready_without_result [OF d, of 9] unbound_task_ready_without_result [OF u, of 9]
    d m u
  show ?thesis by simp
qed

theorem self_move_assign_destroys_witness:
  "tasks two_tasks 1 = Some (Some 8)
   \<and> (\<exists>w'. Task_move_assign 1 1 two_tasks = Inr w'
        \<and> frames w' 8 = None \<and> tasks w' 1 = Some None
        \<and> trace w' = [Ran 7 1, Exchange False, Destroyed 8])"
proof -
  have t: "tasks two_tasks 1 = Some (Some 8)" by (simp add: two_tasks_eq)
  have f: "frames two_tasks 8 = Some \<lparr>promise = TaskPromise_init, code = Finish (Returned 5), at_final = False\<rparr>"
    by (simp add: two_tasks_eq)
  have tr: "trace two_tasks = [Ran 7 1, Exchange False]" by (simp add: two_tasks_eq)
  from self_move_assign_destroys [OF t f] t tr show ?thesis
    by auto
qed

theorem task_ownership_witness:
  "reachable two_tasks
   \<and> single_owner two_tasks
   \<and> tasks two_tasks 1 = Some (Some 8) \<and> tasks two_tasks 2 = None
   \<and> (\<exists>w1 w2. Task_move_ctor 2 1 two_tasks = Inr w1
        \<and> tasks w1 1 = Some None \<and> tasks w1 2 = Some (Some 8) \<and> trace w1 = trace two_tasks
        \<and> Task_dtor 1 w1 = Inr w2 \<and> frames w2 = frames two_tasks \<and> trace w2 = trace two_tasks)
   \<and> tasks two_tasks 0 = Some (Some 7)
   \<and> (\<exists>w1 w2. Task_move_assign 0 1 two_tasks = Inr w1
        \<and> tasks w1 0 = Some (Some 8) \<and> tasks w1 1 = Some None
        \<and> frames w1 = (frames two_tasks)(7 := None)
        \<and> trace w1 = trace two_tasks @ [Destroyed 7]
        \<and> Task_dtor 1 w1 = Inr w2 \<and> frames w2 = frames w1 \<and> trace w2 = trace w1)
   \<and> (\<exists>w1. Task_dtor 0 two_tasks = Inr w1
        \<and> frames w1 = (frames two_tasks)(7 := None)
        \<and> trace w1 = [Ran 7 1, Exchange False, Destroyed 7])"
proof -
  have t: "tasks two_tasks = [0 \<mapsto> Some 7, 1 \<mapsto> Some 8]"
    and tr: "trace two_tasks = [Ran 7 1, Exchange False]"
    by (simp_all add: two_tasks_eq)
  from task_ownership [OF two_tasks_reachable,
      where src = 1 and m = "Some 8" and new = 2 and this = 0 and ?m0.0 = "Some 7" and other = 1
        and mo = "Some 8" and t = 0 and h = 7]
  show ?thesis
    by (simp add: t tr two_tasks_reachable) fastforce
qed

section \<open>The attach and the completion path in either order\<close>

lemma await_suspend_finished_undefined:
  assumes "mAwaitedCoroutine a = Some h" "frames w h = Some f" "at_final f"
  shows "TaskAwaiterBase_await_suspend a c w = Inl UndefinedBehaviour"
  using assms by (simp add: TaskAwaiterBase_await_suspend_def coroutine_resume_def)

lemma setAwaitingCoroutine_after_completion:
  "\<not> mResumeAwaiter p \<Longrightarrow>
   setAwaitingCoroutine c (coroutine_end out (p, tr)) =
     (False,
      (store_outcome out p)\<lparr>mAwaitingCoroutine := Some c, mResumeAwaiter := True\<rparr>,
      tr @ [Exchange False, StoreLink c, Exchange True])"
  by (simp add: coroutine_end_eq setAwaitingCoroutine_eq)

text \<open>
  Claim C1 asks that the one consumer that attaches is resumed exactly once, whichever
  of the completion path and the attach comes first, and that nothing is resumed when
  no consumer attaches. The code, for the coroutine of task 1 of the example, which is
  suspended and not finished, awaited by the coroutine with handle 9:

  \<^item> \<open>await_ready()\<close> returns false. The awaited coroutine is then resumed by what it
    was suspended for and reaches its end: its completion path exchanges the flag,
    observes false and resumes nothing. \<open>setAwaitingCoroutine(9)\<close> on this promise
    would return false, the consumer not suspending. But \<open>await_suspend(9)\<close> first
    calls \<open>resume()\<close> on the coroutine, now at its final suspend point (line 311),
    which is undefined: the consumer is not resumed.
  \<^item> When instead the attach comes first, line 311 itself runs the awaited coroutine
    to its end, \<open>await_suspend(9)\<close> returns false and the consumer is resumed once;
    the resumption that the awaited coroutine was suspended for is then a \<open>resume()\<close>
    of a finished coroutine, which is undefined.
\<close>

theorem attach_after_completion_undefined:
  "TaskAwaiterBase_await_ready \<lparr>mAwaitedCoroutine = Some 8\<rparr> two_tasks = Inr False
   \<and> (\<exists>w1 f1. coroutine_resume 8 two_tasks = Inr w1
        \<and> trace w1 = trace two_tasks @ [Exchange False]
        \<and> frames w1 8 = Some f1 \<and> at_final f1 \<and> result (promise f1) = Inr 5
        \<and> setAwaitingCoroutine 9 (promise f1, trace w1) =
             (False, (promise f1)\<lparr>mAwaitingCoroutine := Some 9\<rparr>,
              trace w1 @ [StoreLink 9, Exchange True])
        \<and> TaskAwaiterBase_await_suspend \<lparr>mAwaitedCoroutine = Some 8\<rparr> 9 w1
             = Inl UndefinedBehaviour)
   \<and> (\<exists>w2. co_await_Task True 1 9 two_tasks = Inr (Completed (Inr 5), w2)
        \<and> trace w2 = trace two_tasks
             @ [Exchange False, StoreLink 9, Exchange True, ResumeContinuation (Some 9)]
        \<and> coroutine_resume 8 w2 = Inl UndefinedBehaviour)"
proof -
  let ?a = "\<lparr>mAwaitedCoroutine = Some 8\<rparr>"
  let ?f1 = "\<lparr>promise = \<lparr>mAwaitingCoroutine = None, mResumeAwaiter = True, mValue = Value 5\<rparr>,
            code = Finish (Returned 5), at_final = True\<rparr> :: (nat, nat) frame"
  let ?w1 = "two_tasks\<lparr>frames := (frames two_tasks)(8 \<mapsto> ?f1),
        trace := [Ran 7 1, Exchange False, Exchange False]\<rparr>"
  have rd: "TaskAwaiterBase_await_ready ?a two_tasks = Inr False"
    by (simp add: TaskAwaiterBase_await_ready_def coroutine_done_def two_tasks_eq)
  have tr: "trace two_tasks = [Ran 7 1, Exchange False]" by (simp add: two_tasks_eq)
  have r: "coroutine_resume 8 two_tasks = Inr ?w1"
    by (simp add: two_tasks_eq coroutine_resume_def run_frame_def coroutine_end_eq
        store_outcome_def return_value_def TaskPromise_init_def)
  have f1: "frames ?w1 8 = Some ?f1" by simp
  have ub: "TaskAwaiterBase_await_suspend ?a 9 ?w1 = Inl UndefinedBehaviour"
    by (rule await_suspend_finished_undefined [OF _ f1]) simp_all
  have st: "setAwaitingCoroutine 9 (promise ?f1, trace ?w1) =
             (False, (promise ?f1)\<lparr>mAwaitingCoroutine := Some 9\<rparr>,
              trace ?w1 @ [StoreLink 9, Exchange True])"
    by (simp add: setAwaitingCoroutine_eq)
  have first: "\<exists>w1 f1. coroutine_resume 8 two_tasks = Inr w1
        \<and> trace w1 = trace two_tasks @ [Exchange False]
        \<and> frames w1 8 = Some f1 \<and> at_final f1 \<and> result (promise f1) = Inr 5
        \<and> setAwaitingCoroutine 9 (promise f1, trace w1) =
             (False, (promise f1)\<lparr>mAwaitingCoroutine := Some 9\<rparr>,
              trace w1 @ [StoreLink 9, Exchange True])
        \<and> TaskAwaiterBase_await_suspend ?a 9 w1 = Inl UndefinedBehaviour"
    apply (rule exI [of _ ?w1], rule exI [of _ ?f1])
    using r ub st by (simp add: tr result_cases)
  let ?f2 = "\<lparr>promise = \<lparr>mAwaitingCoroutine = Some 9, mResumeAwaiter = True, mValue = Value 5\<rparr>,
            code = Finish (Returned 5), at_final = True\<rparr> :: (nat, nat) frame"
  let ?w2 = "two_tasks\<lparr>frames := (frames two_tasks)(8 \<mapsto> ?f2),
        trace := [Ran 7 1, Exchange False, Exchange False, StoreLink 9, Exchange True,
                  ResumeContinuation (Some 9)]\<rparr>"
  have t: "tasks two_tasks 1 = Some (Some 8)" by (simp add: two_tasks_eq)
  have su: "TaskAwaiterBase_await_suspend ?a 9 two_tasks =
      Inr (False, two_tasks\<lparr>frames := (frames two_tasks)(8 \<mapsto> ?f2),
        trace := [Ran 7 1, Exchange False, Exchange False, StoreLink 9, Exchange True]\<rparr>)"
    by (simp add: TaskAwaiterBase_await_suspend_def r setAwaitingCoroutine_eq)
  have o: "operator_co_await two_tasks 1 = Inr ?a"
    using t by (simp add: operator_co_await_def)
  have aw: "co_await_Task True 1 9 two_tasks = Inr (Completed (Inr 5), ?w2)"
    unfolding co_await_Task_def o
    by (simp add: rd su resume_awaiting_def TaskAwaiter_await_resume_def Q_ASSERT_def
        result_cases)
  have ub2: "coroutine_resume 8 ?w2 = Inl UndefinedBehaviour"
    by (simp add: coroutine_resume_def)
  have second: "\<exists>w2. co_await_Task True 1 9 two_tasks = Inr (Completed (Inr 5), w2)
        \<and> trace w2 = trace two_tasks
             @ [Exchange False, StoreLink 9, Exchange True, ResumeContinuation (Some 9)]
        \<and> coroutine_resume 8 w2 = Inl UndefinedBehaviour"
    apply (rule exI [of _ ?w2])
    using aw ub2 by (simp add: tr)
  from rd first second show ?thesis by blast
qed

end
